theory Spec2Isabelle
  imports Main
begin

section \<open>JavaScript values met by the chat client\<close>

text \<open>
  The client (\<^verbatim>\<open>frontend/src/App.tsx\<close>) handles strings typed by the user and
  whatever \<^verbatim>\<open>response.json()\<close> yields. A parsed JSON document is modelled by
  \<open>json\<close>. An object keeps its properties as an association list in the order in which
  JavaScript enumerates them, with distinct keys (as \<^verbatim>\<open>JSON.parse\<close> builds it).
  Numbers are restricted to integers; no property proved below depends on how a number
  is printed. Strings are lists of \<open>char\<close>, that is of code units below 256.
  The value \<^verbatim>\<open>undefined\<close> is never part of a document: it is what reading a missing
  property gives, and is modelled by \<open>None\<close> in \<open>json option\<close>.
\<close>

datatype json =
    JNull
  | JBool bool
  | JNum int
  | JStr string
  | JArr "json list"
  | JObj "(string \<times> json) list"

text \<open>What a \<^verbatim>\<open>throw\<close> carries: an instance of \<^verbatim>\<open>Error\<close> with its message, or
  any other value (the \<^verbatim>\<open>catch\<close> block tells only these two apart).\<close>

datatype thrown = JsError string | NonError

subsection \<open>Numbers to text\<close>

definition digit_char :: "nat \<Rightarrow> char" where
  "digit_char d = char_of (48 + d)"

fun show_nat :: "nat \<Rightarrow> string" where
  "show_nat n = (if n < 10 then [digit_char n] else show_nat (n div 10) @ [digit_char (n mod 10)])"

declare show_nat.simps [simp del]

definition show_int :: "int \<Rightarrow> string" where
  "show_int i = (if i < 0 then CHR ''-'' # show_nat (nat (- i)) else show_nat (nat i))"

subsection \<open>\<^verbatim>\<open>String.prototype.trim\<close>\<close>

text \<open>The white space and line terminators of ECMAScript that are code units below 256:
  TAB, LF, VT, FF, CR, SP and NBSP.\<close>

definition is_white :: "char \<Rightarrow> bool" where
  "is_white c = (of_char c \<in> {9, 10, 11, 12, 13, 32, 160 :: nat})"

definition trim :: "string \<Rightarrow> string" where
  "trim s = rev (dropWhile is_white (rev (dropWhile is_white s)))"

subsection \<open>\<^verbatim>\<open>JSON.stringify(value, null, 2)\<close>\<close>

definition hex_char :: "nat \<Rightarrow> char" where
  "hex_char d = (if d < 10 then char_of (48 + d) else char_of (87 + d))"

text \<open>\<^verbatim>\<open>QuoteJSONString\<close>: the two-character escapes, \<^verbatim>\<open>\u00XX\<close> for the other control
  characters, every other code unit as it is.\<close>

definition escape_char :: "char \<Rightarrow> string" where
  "escape_char c =
     (let n = (of_char c :: nat) in
      if n = 8 then [CHR 0x5C, CHR ''b'']
      else if n = 9 then [CHR 0x5C, CHR ''t'']
      else if n = 10 then [CHR 0x5C, CHR ''n'']
      else if n = 12 then [CHR 0x5C, CHR ''f'']
      else if n = 13 then [CHR 0x5C, CHR ''r'']
      else if n = 34 then [CHR 0x5C, CHR 0x22]
      else if n = 92 then [CHR 0x5C, CHR 0x5C]
      else if n < 32 then [CHR 0x5C, CHR ''u'', CHR ''0'', CHR ''0''] @ [hex_char (n div 16), hex_char (n mod 16)]
      else [c])"

definition quote :: "string \<Rightarrow> string" where
  "quote s = CHR 0x22 # concat (map escape_char s) @ [CHR 0x22]"

fun join :: "string \<Rightarrow> string list \<Rightarrow> string" where
  "join sep [] = []"
| "join sep [x] = x"
| "join sep (x # y # ys) = x @ sep @ join sep (y # ys)"

text \<open>\<^verbatim>\<open>SerializeJSONProperty\<close> with the gap of two spaces; \<open>ind\<close> is the current
  indentation. An empty array or object is printed without a line break.\<close>

fun serialize :: "string \<Rightarrow> json \<Rightarrow> string" where
  "serialize ind JNull = ''null''"
| "serialize ind (JBool b) = (if b then ''true'' else ''false'')"
| "serialize ind (JNum n) = show_int n"
| "serialize ind (JStr s) = quote s"
| "serialize ind (JArr xs) =
     (if xs = [] then ''[]''
      else ''['' @ [CHR 0x0A] @ (ind @ ''  '')
           @ join ('','' @ [CHR 0x0A] @ (ind @ ''  ''))
                  (map (\<lambda>x. serialize (ind @ ''  '') x) xs)
           @ [CHR 0x0A] @ ind @ '']'')"
| "serialize ind (JObj kvs) =
     (if kvs = [] then ''{}''
      else ''{'' @ [CHR 0x0A] @ (ind @ ''  '')
           @ join ('','' @ [CHR 0x0A] @ (ind @ ''  ''))
                  (map (\<lambda>kv. quote (fst kv) @ '': '' @ serialize (ind @ ''  '') (snd kv)) kvs)
           @ [CHR 0x0A] @ ind @ ''}'')"

definition stringify :: "json \<Rightarrow> string" where
  "stringify v = serialize [] v"

text \<open>Inside a template literal: \<^verbatim>\<open>JSON.stringify(undefined, null, 2)\<close> is
  \<^verbatim>\<open>undefined\<close>, which the template prints as the word.\<close>

definition stringify_tpl :: "json option \<Rightarrow> string" where
  "stringify_tpl v = (case v of None \<Rightarrow> ''undefined'' | Some j \<Rightarrow> stringify j)"

subsection \<open>Property reads\<close>

text \<open>The message of the \<^verbatim>\<open>TypeError\<close> raised by a property read on \<^verbatim>\<open>null\<close> or
  \<^verbatim>\<open>undefined\<close>, in the wording of V8 (other engines word it differently; only
  the fact that it is an \<^verbatim>\<open>Error\<close> matters below).\<close>

definition type_error :: "string \<Rightarrow> string \<Rightarrow> thrown" where
  "type_error base k =
     JsError (''Cannot read properties of '' @ base @ '' (reading '' @ [CHR 0x27] @ k @ [CHR 0x27] @ '')'')"

text \<open>\<^verbatim>\<open>v.k\<close>. Only the names \<^verbatim>\<open>type\<close>, \<^verbatim>\<open>payload\<close>, \<^verbatim>\<open>text\<close> and \<^verbatim>\<open>result\<close> are read
  by the client; no primitive wrapper and no array has a property of such a name, so
  the read gives \<^verbatim>\<open>undefined\<close> on every value that is not an object.\<close>

fun read_prop :: "json option \<Rightarrow> string \<Rightarrow> thrown + json option" where
  "read_prop None k = Inl (type_error ''undefined'' k)"
| "read_prop (Some JNull) k = Inl (type_error ''null'' k)"
| "read_prop (Some (JObj kvs)) k = Inr (map_of kvs k)"
| "read_prop (Some v) k = Inr None"

text \<open>\<^verbatim>\<open>v?.k\<close>, and \<^verbatim>\<open>v.k\<close> where \<^verbatim>\<open>v\<close> is known not to be nullish.\<close>

fun optional_prop :: "json option \<Rightarrow> string \<Rightarrow> json option" where
  "optional_prop None k = None"
| "optional_prop (Some JNull) k = None"
| "optional_prop (Some (JObj kvs)) k = map_of kvs k"
| "optional_prop (Some v) k = None"

text \<open>\<^verbatim>\<open>ToBoolean\<close> on a value that is not \<^verbatim>\<open>undefined\<close>.\<close>

fun truthy :: "json \<Rightarrow> bool" where
  "truthy JNull = False"
| "truthy (JBool b) = b"
| "truthy (JNum n) = (n \<noteq> 0)"
| "truthy (JStr s) = (s \<noteq> [])"
| "truthy (JArr xs) = True"
| "truthy (JObj kvs) = True"

section \<open>The chat client\<close>

subsection \<open>State\<close>

datatype sender = User | Bot

text \<open>\<^verbatim>\<open>interface Message\<close>. The text of a bot message may be any JSON value at run
  time (\<^verbatim>\<open>data.payload.text\<close> is not checked to be a string), so it is a \<open>json\<close>;
  a string is a \<open>JStr\<close>. Dates are milliseconds since the epoch.\<close>

record message =
  msg_id :: int
  msg_text :: json
  msg_sender :: sender
  msg_timestamp :: int

text \<open>The four \<^verbatim>\<open>useState\<close> cells of \<^verbatim>\<open>App\<close>.\<close>

record app =
  messages :: "message list"
  inputText :: string
  sessionId :: string
  isLoading :: bool

text \<open>An HTTP request as handed to \<^verbatim>\<open>fetch\<close>; the body is the value given to
  \<^verbatim>\<open>JSON.stringify\<close>.\<close>

record request =
  req_method :: string
  req_url :: string
  req_body :: json

text \<open>What the two awaited promises of \<^verbatim>\<open>handleSendMessage\<close> settle to:
  \<^verbatim>\<open>fetch\<close> rejects, or resolves to a response with a status, whose
  \<^verbatim>\<open>json()\<close> rejects or resolves to a document.\<close>

datatype body_outcome = JsonRejected thrown | JsonParsed json

datatype fetch_outcome = FetchRejected thrown | Responded nat body_outcome

text \<open>The browser around the component: the React state, the calls of
  \<^verbatim>\<open>handleSendMessage\<close> suspended at an \<^verbatim>\<open>await\<close> (each with its request), and the
  log of every request handed to \<^verbatim>\<open>fetch\<close> so far.\<close>

record world =
  ui :: app
  pending :: "request list"
  sent :: "request list"

definition init_app :: app where
  "init_app = \<lparr>messages = [], inputText = [], sessionId = [], isLoading = False\<rparr>"

definition init_world :: world where
  "init_world = \<lparr>ui = init_app, pending = [], sent = []\<rparr>"

subsection \<open>Session identifiers\<close>

text \<open>\<^verbatim>\<open>s.substr(start, len)\<close> for non-negative arguments.\<close>

definition substr :: "nat \<Rightarrow> nat \<Rightarrow> string \<Rightarrow> string" where
  "substr start len s = take len (drop start s)"

text \<open>\<^verbatim>\<open>`session-${Date.now()}-${Math.random().toString(36).substr(2, 9)}`\<close>, from the
  clock reading \<open>now\<close> and the text \<open>rnd\<close> of \<^verbatim>\<open>Math.random().toString(36)\<close>.\<close>

definition newSessionId :: "int \<Rightarrow> string \<Rightarrow> string" where
  "newSessionId now rnd = ''session-'' @ show_int now @ ''-'' @ substr 2 9 rnd"

subsection \<open>Reading the response\<close>

text \<open>\<^verbatim>\<open>response.ok\<close>.\<close>

definition ok :: "nat \<Rightarrow> bool" where
  "ok status = (200 \<le> status \<and> status \<le> 299)"

text \<open>The value of \<^verbatim>\<open>data.type === 'chat_reply' && data.payload?.text\<close> when it is truthy
  (\<open>ty\<close> is \<^verbatim>\<open>data.type\<close>, already read, so \<^verbatim>\<open>data\<close> is not nullish).\<close>

definition chat_reply_text :: "json option \<Rightarrow> json \<Rightarrow> json option" where
  "chat_reply_text ty data =
     (if ty = Some (JStr ''chat_reply'') then
        (case optional_prop (optional_prop (Some data) ''payload'') ''text'' of
           None \<Rightarrow> None
         | Some t \<Rightarrow> if truthy t then Some t else None)
      else None)"

text \<open>Lines 65 to 72: the value left in \<^verbatim>\<open>botText\<close>, or what was thrown on the way.\<close>

definition botText :: "json \<Rightarrow> thrown + json" where
  "botText data =
     (case read_prop (Some data) ''type'' of
        Inl e \<Rightarrow> Inl e
      | Inr ty \<Rightarrow>
          (case chat_reply_text ty data of
             Some t \<Rightarrow> Inr t
           | None \<Rightarrow>
               if ty = Some (JStr ''result'') then
                 (case read_prop (optional_prop (Some data) ''payload'') ''result'' of
                    Inl e \<Rightarrow> Inl e
                  | Inr r \<Rightarrow> Inr (JStr (''SQL Query Result:'' @ [CHR 0x0A] @ stringify_tpl r)))
               else Inr (JStr (stringify data))))"

text \<open>Lines 59 to 72, from the settled promises on.\<close>

definition reply_text :: "fetch_outcome \<Rightarrow> thrown + json" where
  "reply_text out =
     (case out of
        FetchRejected e \<Rightarrow> Inl e
      | Responded status body \<Rightarrow>
          if \<not> ok status then Inl (JsError (''HTTP error! status: '' @ show_nat status))
          else (case body of JsonRejected e \<Rightarrow> Inl e | JsonParsed data \<Rightarrow> botText data))"

text \<open>\<^verbatim>\<open>error instanceof Error ? error.message : 'Failed to connect to bot.'\<close>\<close>

definition error_message :: "thrown \<Rightarrow> string" where
  "error_message e = (case e of JsError m \<Rightarrow> m | NonError \<Rightarrow> ''Failed to connect to bot.'')"

text \<open>The message appended by the \<^verbatim>\<open>try\<close> block (lines 74 to 81) or by the
  \<^verbatim>\<open>catch\<close> block (lines 84 to 90); \<open>now\<close> is \<^verbatim>\<open>Date.now()\<close> and \<open>stamp\<close> is
  \<^verbatim>\<open>new Date()\<close> there.\<close>

definition reply_message :: "fetch_outcome \<Rightarrow> int \<Rightarrow> int \<Rightarrow> message" where
  "reply_message out now stamp =
     (case reply_text out of
        Inr t \<Rightarrow> \<lparr>msg_id = now + 1, msg_text = t, msg_sender = Bot, msg_timestamp = stamp\<rparr>
      | Inl e \<Rightarrow> \<lparr>msg_id = now + 2, msg_text = JStr (''Error: '' @ error_message e),
                  msg_sender = Bot, msg_timestamp = stamp\<rparr>)"

subsection \<open>Event handlers\<close>

text \<open>The body of the request built at lines 51 to 56.\<close>

definition envelope :: "string \<Rightarrow> string \<Rightarrow> string \<Rightarrow> json" where
  "envelope uniqueId sid currentInput =
     JObj [(''type'', JStr ''user_message''),
           (''id'', JStr uniqueId),
           (''session_id'', JStr sid),
           (''payload'', JObj [(''text'', JStr currentInput)])]"

definition chat_request :: "string \<Rightarrow> string \<Rightarrow> string \<Rightarrow> request" where
  "chat_request uniqueId sid currentInput =
     \<lparr>req_method = ''POST'', req_url = ''http://localhost:8000/chat'',
      req_body = envelope uniqueId sid currentInput\<rparr>"

text \<open>The mount effect (lines 18 to 21).\<close>

definition mount :: "int \<Rightarrow> string \<Rightarrow> world \<Rightarrow> world" where
  "mount now rnd w = w\<lparr>ui := (ui w)\<lparr>sessionId := newSessionId now rnd\<rparr>\<rparr>"

text \<open>\<^verbatim>\<open>handleSendMessage\<close> from the submit event to the first \<^verbatim>\<open>await\<close> (lines 28 to
  57): \<open>t1\<close> is \<^verbatim>\<open>Date.now()\<close> at line 32, \<open>t2\<close> is \<^verbatim>\<open>new Date()\<close> at line 35 and
  \<open>t3\<close> is \<^verbatim>\<open>Date.now()\<close> at line 44.\<close>

definition handleSendMessage :: "int \<Rightarrow> int \<Rightarrow> int \<Rightarrow> world \<Rightarrow> world" where
  "handleSendMessage t1 t2 t3 w =
     (let a = ui w in
      if trim (inputText a) = [] \<or> isLoading a then w
      else
        let userMessage = \<lparr>msg_id = t1, msg_text = JStr (inputText a),
                           msg_sender = User, msg_timestamp = t2\<rparr>;
            currentInput = inputText a;
            req = chat_request (''msg-'' @ show_int t3) (sessionId a) currentInput
        in w\<lparr>ui := a\<lparr>messages := messages a @ [userMessage], inputText := [], isLoading := True\<rparr>,
              pending := pending w @ [req],
              sent := sent w @ [req]\<rparr>)"

text \<open>The rest of \<^verbatim>\<open>handleSendMessage\<close> (lines 59 to 93), run when the promises of the
  oldest suspended call have settled to \<open>out\<close>. Between the two \<^verbatim>\<open>await\<close>s the
  handler neither reads nor writes the state, and afterwards it only appends to
  \<^verbatim>\<open>messages\<close> by a functional update and clears \<^verbatim>\<open>isLoading\<close>, so one step stands
  for both resumptions. Without a suspended call there is nothing to resume.\<close>

definition settle :: "fetch_outcome \<Rightarrow> int \<Rightarrow> int \<Rightarrow> world \<Rightarrow> world" where
  "settle out now stamp w =
     (case pending w of
        [] \<Rightarrow> w
      | req # rest \<Rightarrow>
          w\<lparr>ui := (ui w)\<lparr>messages := messages (ui w) @ [reply_message out now stamp],
                          isLoading := False\<rparr>,
            pending := rest\<rparr>)"

text \<open>\<^verbatim>\<open>clearChat\<close> (lines 96 to 100).\<close>

definition clearChat :: "int \<Rightarrow> string \<Rightarrow> world \<Rightarrow> world" where
  "clearChat now rnd w = w\<lparr>ui := (ui w)\<lparr>messages := [], sessionId := newSessionId now rnd\<rparr>\<rparr>"

subsection \<open>What is rendered\<close>

text \<open>\<^verbatim>\<open>s.slice(-n)\<close>.\<close>

definition slice_last :: "nat \<Rightarrow> string \<Rightarrow> string" where
  "slice_last n s = drop (length s - n) s"

text \<open>One message box: the label, the time stamp (the page prints it with
  \<^verbatim>\<open>toLocaleTimeString\<close>, which depends on the locale; the date itself is kept here)
  and the text.\<close>

record bubble =
  b_label :: string
  b_time :: int
  b_text :: json

text \<open>The parts of the page that depend on the state (lines 102 to 186).\<close>

record view =
  v_session :: string
  v_welcome :: bool
  v_bubbles :: "bubble list"
  v_thinking :: bool
  v_input_value :: string
  v_input_disabled :: bool
  v_placeholder :: string
  v_button_disabled :: bool
  v_button_label :: string

definition bubble_of :: "message \<Rightarrow> bubble" where
  "bubble_of m =
     \<lparr>b_label = (if msg_sender m = User then ''YOU'' else ''BOT''),
      b_time = msg_timestamp m,
      b_text = msg_text m\<rparr>"

text \<open>What React accepts as the child \<^verbatim>\<open>{message.text}\<close> of a box (line 149): a string
  or a number is shown as text, a boolean or \<^verbatim>\<open>null\<close> shows nothing, an array shows its
  elements one after another, and a plain object is refused. The text of a bot message
  is \<^verbatim>\<open>data.payload.text\<close> as received (lines 66 and 67), so all of these can occur.\<close>

fun valid_child :: "json \<Rightarrow> bool" where
  "valid_child (JObj kvs) = False"
| "valid_child (JArr xs) = list_all valid_child xs"
| "valid_child v = True"

text \<open>The page React shows for the element that \<^verbatim>\<open>App\<close> returns (lines 102 to 186).
  When the text of a box is not a valid child, React throws an \<^verbatim>\<open>Error\<close> (its message
  goes on to name the keys of the object); \<^verbatim>\<open>App\<close> has no error boundary, so React
  unmounts it: nothing is shown any more, neither boxes nor input nor buttons.\<close>

definition render :: "app \<Rightarrow> thrown + view" where
  "render a =
     (if list_all (\<lambda>m. valid_child (msg_text m)) (messages a) then
        Inr \<lparr>v_session = slice_last 8 (sessionId a),
             v_welcome = (length (messages a) = 0),
             v_bubbles = map bubble_of (messages a),
             v_thinking = isLoading a,
             v_input_value = inputText a,
             v_input_disabled = isLoading a,
             v_placeholder = (if isLoading a then ''Processing...'' else ''Type your message...''),
             v_button_disabled = (isLoading a \<or> trim (inputText a) = []),
             v_button_label = (if isLoading a then ''...'' else ''SEND'')\<rparr>
      else Inl (JsError ''Objects are not valid as a React child''))"

text \<open>The \<^verbatim>\<open>onChange\<close> handler of the input (line 170). The input is disabled while
  \<^verbatim>\<open>isLoading\<close> is true (line 171) and a disabled input takes no typing, so the event
  reaches the handler only otherwise.\<close>

definition change :: "string \<Rightarrow> world \<Rightarrow> world" where
  "change v w = (if isLoading (ui w) then w else w\<lparr>ui := (ui w)\<lparr>inputText := v\<rparr>\<rparr>)"

subsection \<open>Runs\<close>

text \<open>The events of the page. Each handler runs to its end (or to its \<^verbatim>\<open>await\<close>) before
  the next event is taken, and React has re-rendered in between, so a handler sees
  the state its predecessor left. The clock readings and the random text are inputs.
  Once rendering has thrown, the page is gone and none of its events arrives any more;
  the handlers are functions of the state all the same, and the events are not
  restricted to pages that render, so the runs below include every run of the page.\<close>

datatype event =
    Mount int string
  | Change string
  | Submit int int int
  | Settle fetch_outcome int int
  | Clear int string

fun step :: "event \<Rightarrow> world \<Rightarrow> world" where
  "step (Mount now rnd) w = mount now rnd w"
| "step (Change v) w = change v w"
| "step (Submit t1 t2 t3) w = handleSendMessage t1 t2 t3 w"
| "step (Settle out now stamp) w = settle out now stamp w"
| "step (Clear now rnd) w = clearChat now rnd w"

fun run :: "event list \<Rightarrow> world \<Rightarrow> world" where
  "run [] w = w"
| "run (e # es) w = run es (step e w)"

fun is_clear :: "event \<Rightarrow> bool" where
  "is_clear (Clear now rnd) = True"
| "is_clear e = False"

fun is_mint :: "event \<Rightarrow> bool" where
  "is_mint (Mount now rnd) = True"
| "is_mint (Clear now rnd) = True"
| "is_mint e = False"

fun is_settle :: "event \<Rightarrow> bool" where
  "is_settle (Settle out now stamp) = True"
| "is_settle e = False"

text \<open>A run in which the clear button is pressed only while no call is suspended.\<close>

fun clears_when_idle :: "event list \<Rightarrow> world \<Rightarrow> bool" where
  "clears_when_idle [] w = True"
| "clears_when_idle (e # es) w =
     ((is_clear e \<longrightarrow> pending w = []) \<and> clears_when_idle es (step e w))"

text \<open>Whether a message text is a string that begins with \<^verbatim>\<open>Error:\<close>.\<close>

fun begins_with_Error :: "json \<Rightarrow> bool" where
  "begins_with_Error (JStr s) = (take 6 s = ''Error:'')"
| "begins_with_Error v = False"

text \<open>The senders of a conversation of \<open>n\<close> completed exchanges.\<close>

definition exchanges :: "nat \<Rightarrow> sender list" where
  "exchanges n = concat (replicate n [User, Bot])"

section \<open>The server's codec\<close>

text \<open>Modelled from the spec: the backend (\<^verbatim>\<open>backend/main.py\<close>,
  \<^verbatim>\<open>backend/models.py\<close>) is not among the sources. Section 4.2 of the specification:
  the codec decodes an inbound envelope \<^verbatim>\<open>{type, id, session_id, payload}\<close> and fails
  with \<^verbatim>\<open>MalformedRequest\<close> if \<^verbatim>\<open>type\<close> is missing or unrecognized, \<^verbatim>\<open>session_id\<close> is
  absent, or \<^verbatim>\<open>payload.text\<close> is not a non-empty string after trimming. The
  specification does not say which characters the trimming removes; the client's
  \<open>trim\<close> is used.\<close>

datatype codec_error = MalformedRequest

record user_message =
  um_id :: "json option"
  um_session_id :: json
  um_text :: string

definition decode :: "json \<Rightarrow> codec_error + user_message" where
  "decode env =
     (if optional_prop (Some env) ''type'' \<noteq> Some (JStr ''user_message'') then Inl MalformedRequest
      else
        (case optional_prop (Some env) ''session_id'' of
           None \<Rightarrow> Inl MalformedRequest
         | Some sid \<Rightarrow>
             (case optional_prop (optional_prop (Some env) ''payload'') ''text'' of
                Some (JStr t) \<Rightarrow>
                  if trim t = [] then Inl MalformedRequest
                  else Inr \<lparr>um_id = optional_prop (Some env) ''id'', um_session_id = sid, um_text = t\<rparr>
              | _ \<Rightarrow> Inl MalformedRequest)))"

section \<open>Properties of the response handling\<close>

subsection \<open>Auxiliary facts\<close>

lemma settle_bubbles:
  assumes "pending w \<noteq> []" and "valid_child (msg_text (reply_message out now stamp))"
    and "bubble_of (reply_message out now stamp) = box"
  shows "(case render (ui (settle out now stamp w)) of
            Inl e \<Rightarrow> Inl e
          | Inr v \<Rightarrow> Inr (v_bubbles v))
         = (case render (ui w) of
              Inl e \<Rightarrow> Inl e
            | Inr v \<Rightarrow> Inr (v_bubbles v @ [box]))"
  using assms by (cases "pending w") (auto simp: settle_def render_def)

lemma botText_fallback:
  assumes "data \<noteq> JNull"
    and "optional_prop (Some data) ''type'' \<noteq> Some (JStr ''result'')"
    and "optional_prop (Some data) ''type'' \<noteq> Some (JStr ''chat_reply'')
         \<or> optional_prop (optional_prop (Some data) ''payload'') ''text'' = None"
  shows "botText data = Inr (JStr (stringify data))"
  using assms by (cases data) (auto simp: botText_def chat_reply_text_def)

lemma botText_chat_reply:
  assumes "optional_prop (Some data) ''type'' = Some (JStr ''chat_reply'')"
    and "optional_prop (optional_prop (Some data) ''payload'') ''text'' = Some t"
    and "truthy t"
  shows "botText data = Inr t"
  using assms by (cases data) (auto simp: botText_def chat_reply_text_def)

lemma botText_result:
  assumes "optional_prop (Some data) ''type'' = Some (JStr ''result'')"
    and "optional_prop (Some data) ''payload'' = Some p"
    and "p \<noteq> JNull"
  shows "botText data =
           Inr (JStr (''SQL Query Result:'' @ [CHR 0x0A] @ stringify_tpl (optional_prop (Some p) ''result'')))"
  using assms by (cases data; cases p) (auto simp: botText_def chat_reply_text_def)

lemma bubble_of_reply:
  "ok status \<Longrightarrow> botText data = Inr t \<Longrightarrow>
   bubble_of (reply_message (Responded status (JsonParsed data)) now stamp) =
     \<lparr>b_label = ''BOT'', b_time = stamp, b_text = t\<rparr>"
  by (simp add: bubble_of_def reply_message_def reply_text_def)

lemma text_of_reply:
  "ok status \<Longrightarrow> botText data = Inr t \<Longrightarrow>
   msg_text (reply_message (Responded status (JsonParsed data)) now stamp) = t"
  by (simp add: reply_message_def reply_text_def)

lemma sample_pending:
  "pending (run [Mount 1000 ''0.abcdefghijklm'', Change ''hi'', Submit 1 2 3] init_world) \<noteq> []"
  by (simp add: mount_def change_def handleSendMessage_def render_def init_world_def init_app_def
      trim_def is_white_def Let_def)

lemma sample_page:
  "render (ui (run [Mount 1000 ''0.abcdefghijklm'', Change ''hi'', Submit 1 2 3] init_world))
    = Inr \<lparr>v_session = ''bcdefghi'', v_welcome = False,
           v_bubbles = [\<lparr>b_label = ''YOU'', b_time = 2, b_text = JStr ''hi''\<rparr>],
           v_thinking = True, v_input_value = [], v_input_disabled = True,
           v_placeholder = ''Processing...'', v_button_disabled = True,
           v_button_label = ''...''\<rparr>"
proof -
  have "newSessionId 1000 ''0.abcdefghijklm'' = ''session-1000-abcdefghi''"
    by code_simp
  then show ?thesis
    by (simp add: mount_def change_def handleSendMessage_def render_def init_world_def init_app_def
        trim_def is_white_def Let_def bubble_of_def slice_last_def)
qed

subsection \<open>Unrecognized envelopes\<close>

text \<open>
  Claim C1. Let the response to a \<^verbatim>\<open>/chat\<close> request have a 2xx status and a body that
  parses to a JSON document \<open>data\<close> other than \<^verbatim>\<open>null\<close>. If its \<^verbatim>\<open>type\<close> is not
  \<^verbatim>\<open>'result'\<close>, and is not \<^verbatim>\<open>'chat_reply'\<close> or there is no \<^verbatim>\<open>payload.text\<close>, then
  resuming the suspended call adds exactly one box to the boxes the page shows: a
  \<^verbatim>\<open>BOT\<close> box whose text is \<^verbatim>\<open>JSON.stringify(data, null, 2)\<close>, the whole envelope.
  (A page that an earlier message has made React unmount stays unmounted.)
\<close>

theorem unrecognized_envelope_shown_as_raw_json:
  assumes "data \<noteq> JNull"
    and "optional_prop (Some data) ''type'' \<noteq> Some (JStr ''result'')"
    and "optional_prop (Some data) ''type'' \<noteq> Some (JStr ''chat_reply'')
         \<or> optional_prop (optional_prop (Some data) ''payload'') ''text'' = None"
    and "ok status"
    and "pending w \<noteq> []"
  shows "(case render (ui (settle (Responded status (JsonParsed data)) now stamp w)) of
            Inl e \<Rightarrow> Inl e
          | Inr v \<Rightarrow> Inr (v_bubbles v))
         = (case render (ui w) of
              Inl e \<Rightarrow> Inl e
            | Inr v \<Rightarrow> Inr (v_bubbles v
                 @ [\<lparr>b_label = ''BOT'', b_time = stamp, b_text = JStr (stringify data)\<rparr>]))"
proof -
  have t: "botText data = Inr (JStr (stringify data))"
    using assms(1-3) by (rule botText_fallback)
  have "valid_child (msg_text (reply_message (Responded status (JsonParsed data)) now stamp))"
    using assms(4) t by (simp add: text_of_reply)
  with assms(5) show ?thesis
    by (rule settle_bubbles) (rule bubble_of_reply [OF assms(4) t])
qed

text \<open>An instance: the envelope \<^verbatim>\<open>{"type": "pong", "id": "m1"}\<close> answering the
  message \<^verbatim>\<open>hi\<close>.\<close>

theorem unrecognized_envelope_shown_as_raw_json_witness:
  "JObj [(''type'', JStr ''pong''), (''id'', JStr ''m1'')] \<noteq> JNull
   \<and> optional_prop (Some (JObj [(''type'', JStr ''pong''), (''id'', JStr ''m1'')])) ''type''
        \<noteq> Some (JStr ''result'')
   \<and> optional_prop (Some (JObj [(''type'', JStr ''pong''), (''id'', JStr ''m1'')])) ''type''
        \<noteq> Some (JStr ''chat_reply'')
   \<and> ok 200
   \<and> pending (run [Mount 1000 ''0.abcdefghijklm'', Change ''hi'', Submit 1 2 3] init_world) \<noteq> []
   \<and> (case render (ui (settle
        (Responded 200 (JsonParsed (JObj [(''type'', JStr ''pong''), (''id'', JStr ''m1'')]))) 7 8
        (run [Mount 1000 ''0.abcdefghijklm'', Change ''hi'', Submit 1 2 3] init_world))) of
         Inl e \<Rightarrow> Inl e
       | Inr v \<Rightarrow> Inr (v_bubbles v)) =
       Inr [\<lparr>b_label = ''YOU'', b_time = 2, b_text = JStr ''hi''\<rparr>,
            \<lparr>b_label = ''BOT'', b_time = 8,
              b_text = JStr (stringify (JObj [(''type'', JStr ''pong''), (''id'', JStr ''m1'')]))\<rparr>]"
proof -
  let ?d = "JObj [(''type'', JStr ''pong''), (''id'', JStr ''m1'')]"
  let ?w = "run [Mount 1000 ''0.abcdefghijklm'', Change ''hi'', Submit 1 2 3] init_world"
  have h1: "?d \<noteq> JNull" by simp
  have h2: "optional_prop (Some ?d) ''type'' \<noteq> Some (JStr ''result'')" by simp
  have h3: "optional_prop (Some ?d) ''type'' \<noteq> Some (JStr ''chat_reply'')
      \<or> optional_prop (optional_prop (Some ?d) ''payload'') ''text'' = None" by simp
  have h4: "ok 200" by (simp add: ok_def)
  have h5: "pending ?w \<noteq> []" by (rule sample_pending)
  from unrecognized_envelope_shown_as_raw_json [OF h1 h2 h3 h4 h5, of 7 8]
  show ?thesis using h1 h2 h3 h4 h5 by (simp only: sample_page) simp
qed

subsection \<open>Chat replies\<close>

text \<open>
  Claim C3, as written, fails at the empty string. For the envelope
  \<^verbatim>\<open>{"type": "chat_reply", "id": "m1", "session_id": "s1", "payload": {"text": ""}}\<close>
  the test \<^verbatim>\<open>data.payload?.text\<close> is falsy, the type is not \<^verbatim>\<open>'result'\<close>, and the last
  branch is taken: the text of the bot message is the whole envelope as JSON text,
  not the empty string.
\<close>

theorem empty_chat_reply_counterexample:
  "msg_text (reply_message (Responded 200 (JsonParsed
      (JObj [(''type'', JStr ''chat_reply''), (''id'', JStr ''m1''), (''session_id'', JStr ''s1''),
             (''payload'', JObj [(''text'', JStr [])])]))) 7 8)
    = JStr (stringify
      (JObj [(''type'', JStr ''chat_reply''), (''id'', JStr ''m1''), (''session_id'', JStr ''s1''),
             (''payload'', JObj [(''text'', JStr [])])]))
   \<and> msg_text (reply_message (Responded 200 (JsonParsed
      (JObj [(''type'', JStr ''chat_reply''), (''id'', JStr ''m1''), (''session_id'', JStr ''s1''),
             (''payload'', JObj [(''text'', JStr [])])]))) 7 8)
    \<noteq> JStr []"
  by (simp add: reply_message_def reply_text_def ok_def botText_def chat_reply_text_def stringify_def)

text \<open>
  Claim C3, amended. For every response with a 2xx status whose envelope has type
  \<^verbatim>\<open>'chat_reply'\<close> and a \<^verbatim>\<open>payload.text\<close> that is a non-empty string \<open>s\<close>, resuming the
  suspended call adds exactly one \<^verbatim>\<open>BOT\<close> box to the boxes the page shows, whose text
  is \<open>s\<close> itself. (A page that an earlier message has made React unmount stays
  unmounted.)
\<close>

theorem chat_reply_text_displayed:
  assumes "optional_prop (Some data) ''type'' = Some (JStr ''chat_reply'')"
    and "optional_prop (optional_prop (Some data) ''payload'') ''text'' = Some (JStr s)"
    and "s \<noteq> []"
    and "ok status"
    and "pending w \<noteq> []"
  shows "(case render (ui (settle (Responded status (JsonParsed data)) now stamp w)) of
            Inl e \<Rightarrow> Inl e
          | Inr v \<Rightarrow> Inr (v_bubbles v))
         = (case render (ui w) of
              Inl e \<Rightarrow> Inl e
            | Inr v \<Rightarrow> Inr (v_bubbles v
                 @ [\<lparr>b_label = ''BOT'', b_time = stamp, b_text = JStr s\<rparr>]))"
proof -
  have t: "botText data = Inr (JStr s)"
    using assms(1-3) by (simp add: botText_chat_reply)
  have "valid_child (msg_text (reply_message (Responded status (JsonParsed data)) now stamp))"
    using assms(4) t by (simp add: text_of_reply)
  with assms(5) show ?thesis
    by (rule settle_bubbles) (rule bubble_of_reply [OF assms(4) t])
qed

text \<open>An instance: the reply \<^verbatim>\<open>yo\<close> to the message \<^verbatim>\<open>hi\<close>.\<close>

theorem chat_reply_text_displayed_witness:
  "optional_prop (Some (JObj [(''type'', JStr ''chat_reply''), (''id'', JStr ''m1''),
        (''session_id'', JStr ''s1''), (''payload'', JObj [(''text'', JStr ''yo'')])])) ''type''
     = Some (JStr ''chat_reply'')
   \<and> optional_prop (optional_prop (Some (JObj [(''type'', JStr ''chat_reply''), (''id'', JStr ''m1''),
        (''session_id'', JStr ''s1''), (''payload'', JObj [(''text'', JStr ''yo'')])])) ''payload'') ''text''
     = Some (JStr ''yo'')
   \<and> ''yo'' \<noteq> []
   \<and> ok 200
   \<and> pending (run [Mount 1000 ''0.abcdefghijklm'', Change ''hi'', Submit 1 2 3] init_world) \<noteq> []
   \<and> (case render (ui (settle
        (Responded 200 (JsonParsed (JObj [(''type'', JStr ''chat_reply''), (''id'', JStr ''m1''),
        (''session_id'', JStr ''s1''), (''payload'', JObj [(''text'', JStr ''yo'')])]))) 7 8
        (run [Mount 1000 ''0.abcdefghijklm'', Change ''hi'', Submit 1 2 3] init_world))) of
         Inl e \<Rightarrow> Inl e
       | Inr v \<Rightarrow> Inr (v_bubbles v)) =
       Inr [\<lparr>b_label = ''YOU'', b_time = 2, b_text = JStr ''hi''\<rparr>,
            \<lparr>b_label = ''BOT'', b_time = 8, b_text = JStr ''yo''\<rparr>]"
proof -
  let ?d = "JObj [(''type'', JStr ''chat_reply''), (''id'', JStr ''m1''),
        (''session_id'', JStr ''s1''), (''payload'', JObj [(''text'', JStr ''yo'')])]"
  let ?w = "run [Mount 1000 ''0.abcdefghijklm'', Change ''hi'', Submit 1 2 3] init_world"
  have h1: "optional_prop (Some ?d) ''type'' = Some (JStr ''chat_reply'')" by simp
  have h2: "optional_prop (optional_prop (Some ?d) ''payload'') ''text'' = Some (JStr ''yo'')" by simp
  have h3: "''yo'' \<noteq> []" by simp
  have h4: "ok 200" by (simp add: ok_def)
  have h5: "pending ?w \<noteq> []" by (rule sample_pending)
  from chat_reply_text_displayed [OF h1 h2 h3 h4 h5, of 7 8]
  show ?thesis using h1 h2 h3 h4 h5 by (simp only: sample_page) simp
qed

subsection \<open>Query results\<close>

text \<open>
  Claim C6. For every response with a 2xx status whose envelope has type \<^verbatim>\<open>'result'\<close>
  and a payload \<open>p\<close> (any JSON value but \<^verbatim>\<open>null\<close>), resuming the suspended call adds
  exactly one \<^verbatim>\<open>BOT\<close> box to the boxes the page shows, whose text is
  \<^verbatim>\<open>SQL Query Result:\<close>, a line break and the JSON text of \<^verbatim>\<open>p.result\<close> (the word
  \<^verbatim>\<open>undefined\<close> if \<open>p\<close> has no such field). The text is a function of the \<^verbatim>\<open>result\<close>
  field alone: no other field of the payload or of the envelope occurs in it. (A page
  that an earlier message has made React unmount stays unmounted.)
\<close>

theorem result_envelope_shows_result_field:
  assumes "optional_prop (Some data) ''type'' = Some (JStr ''result'')"
    and "optional_prop (Some data) ''payload'' = Some p"
    and "p \<noteq> JNull"
    and "ok status"
    and "pending w \<noteq> []"
  shows "(case render (ui (settle (Responded status (JsonParsed data)) now stamp w)) of
            Inl e \<Rightarrow> Inl e
          | Inr v \<Rightarrow> Inr (v_bubbles v))
         = (case render (ui w) of
              Inl e \<Rightarrow> Inl e
            | Inr v \<Rightarrow> Inr (v_bubbles v
                 @ [\<lparr>b_label = ''BOT'', b_time = stamp,
                     b_text = JStr (''SQL Query Result:'' @ [CHR 0x0A]
                                    @ stringify_tpl (optional_prop (Some p) ''result''))\<rparr>]))"
proof -
  have t: "botText data = Inr (JStr (''SQL Query Result:'' @ [CHR 0x0A]
                                    @ stringify_tpl (optional_prop (Some p) ''result'')))"
    using assms(1-3) by (rule botText_result)
  have "valid_child (msg_text (reply_message (Responded status (JsonParsed data)) now stamp))"
    using assms(4) t by (simp add: text_of_reply)
  with assms(5) show ?thesis
    by (rule settle_bubbles) (rule bubble_of_reply [OF assms(4) t])
qed

text \<open>An instance: one row \<^verbatim>\<open>{"count": 42}\<close>, in a payload that has a second field.\<close>

theorem result_envelope_shows_result_field_witness:
  "optional_prop (Some (JObj [(''type'', JStr ''result''), (''id'', JStr ''m1''),
        (''session_id'', JStr ''s1''),
        (''payload'', JObj [(''result'', JArr [JObj [(''count'', JNum 42)]]), (''note'', JStr ''x'')])]))
        ''type'' = Some (JStr ''result'')
   \<and> optional_prop (Some (JObj [(''type'', JStr ''result''), (''id'', JStr ''m1''),
        (''session_id'', JStr ''s1''),
        (''payload'', JObj [(''result'', JArr [JObj [(''count'', JNum 42)]]), (''note'', JStr ''x'')])]))
        ''payload'' = Some (JObj [(''result'', JArr [JObj [(''count'', JNum 42)]]), (''note'', JStr ''x'')])
   \<and> JObj [(''result'', JArr [JObj [(''count'', JNum 42)]]), (''note'', JStr ''x'')] \<noteq> JNull
   \<and> ok 200
   \<and> pending (run [Mount 1000 ''0.abcdefghijklm'', Change ''hi'', Submit 1 2 3] init_world) \<noteq> []
   \<and> (case render (ui (settle
        (Responded 200 (JsonParsed (JObj [(''type'', JStr ''result''), (''id'', JStr ''m1''),
        (''session_id'', JStr ''s1''),
        (''payload'', JObj [(''result'', JArr [JObj [(''count'', JNum 42)]]), (''note'', JStr ''x'')])]))) 7 8
        (run [Mount 1000 ''0.abcdefghijklm'', Change ''hi'', Submit 1 2 3] init_world))) of
         Inl e \<Rightarrow> Inl e
       | Inr v \<Rightarrow> Inr (v_bubbles v)) =
       Inr [\<lparr>b_label = ''YOU'', b_time = 2, b_text = JStr ''hi''\<rparr>,
            \<lparr>b_label = ''BOT'', b_time = 8,
              b_text = JStr (''SQL Query Result:'' @ [CHR 0x0A]
                             @ stringify (JArr [JObj [(''count'', JNum 42)]]))\<rparr>]"
proof -
  let ?p = "JObj [(''result'', JArr [JObj [(''count'', JNum 42)]]), (''note'', JStr ''x'')]"
  let ?d = "JObj [(''type'', JStr ''result''), (''id'', JStr ''m1''),
        (''session_id'', JStr ''s1''), (''payload'', ?p)]"
  let ?w = "run [Mount 1000 ''0.abcdefghijklm'', Change ''hi'', Submit 1 2 3] init_world"
  have h1: "optional_prop (Some ?d) ''type'' = Some (JStr ''result'')" by simp
  have h2: "optional_prop (Some ?d) ''payload'' = Some ?p" by simp
  have h3: "?p \<noteq> JNull" by simp
  have h4: "ok 200" by (simp add: ok_def)
  have h5: "pending ?w \<noteq> []" by (rule sample_pending)
  from result_envelope_shows_result_field [OF h1 h2 h3 h4 h5, of 7 8]
  show ?thesis using h1 h2 h3 h4 h5 by (simp only: sample_page) (simp add: stringify_tpl_def)
qed

text \<open>
  Outside the envelope shape: a \<^verbatim>\<open>'result'\<close> envelope with no payload, or with the
  payload \<^verbatim>\<open>null\<close>, makes the read of \<^verbatim>\<open>data.payload.result\<close> throw, and the
  document \<^verbatim>\<open>null\<close> makes the read of \<^verbatim>\<open>data.type\<close> throw; the \<^verbatim>\<open>catch\<close> block
  then shows an error message.
\<close>

lemma result_envelope_without_payload:
  assumes "optional_prop (Some data) ''type'' = Some (JStr ''result'')"
    and "optional_prop (Some data) ''payload'' = None \<or> optional_prop (Some data) ''payload'' = Some JNull"
  shows "\<exists>e. botText data = Inl e"
  using assms by (cases data) (auto simp: botText_def chat_reply_text_def)

lemma null_document: "botText JNull = Inl (type_error ''null'' ''type'')"
  by (simp add: botText_def)

section \<open>Properties of runs\<close>

subsection \<open>Requests in flight\<close>

lemma in_flight_step:
  "length (pending w) = (if isLoading (ui w) then 1 else 0) \<Longrightarrow>
   length (pending (step e w)) = (if isLoading (ui (step e w)) then 1 else 0)"
  by (cases e)
     (auto simp: mount_def change_def handleSendMessage_def settle_def clearChat_def Let_def
           split: list.splits if_splits)

lemma in_flight_run:
  "length (pending w) = (if isLoading (ui w) then 1 else 0) \<Longrightarrow>
   length (pending (run evs w)) = (if isLoading (ui (run evs w)) then 1 else 0)"
proof (induction evs arbitrary: w)
  case Nil
  then show ?case by simp
next
  case (Cons e evs)
  from Cons.prems have "length (pending (step e w)) = (if isLoading (ui (step e w)) then 1 else 0)"
    by (rule in_flight_step)
  then show ?case using Cons.IH by simp
qed

lemma in_flight_reachable:
  "length (pending (run evs init_world)) = (if isLoading (ui (run evs init_world)) then 1 else 0)"
  by (rule in_flight_run) (simp add: init_world_def init_app_def)

text \<open>
  Claim C9. After every sequence of events from the initial state, at most one call of
  \<^verbatim>\<open>handleSendMessage\<close> is suspended at its request, and one is suspended exactly when
  \<^verbatim>\<open>isLoading\<close> is true. While \<^verbatim>\<open>isLoading\<close> is true, a submit event changes nothing
  (no request is sent), and on whatever page is shown the input and the send button
  are disabled. Hence two requests of this client are never in flight together,
  whatever their session.
\<close>

theorem at_most_one_request_in_flight:
  "length (pending (run evs init_world)) \<le> 1
   \<and> (isLoading (ui (run evs init_world)) \<longleftrightarrow> pending (run evs init_world) \<noteq> [])
   \<and> (isLoading (ui (run evs init_world)) \<longrightarrow>
        step (Submit t1 t2 t3) (run evs init_world) = run evs init_world
        \<and> (case render (ui (run evs init_world)) of
              Inl e \<Rightarrow> True
            | Inr v \<Rightarrow> v_input_disabled v \<and> v_button_disabled v))"
  using in_flight_reachable [of evs]
  by (auto simp: handleSendMessage_def render_def Let_def split: if_splits)

lemmas client_defs =
  mount_def change_def handleSendMessage_def clearChat_def settle_def render_def
  init_world_def init_app_def trim_def is_white_def Let_def
  reply_message_def reply_text_def ok_def botText_def chat_reply_text_def bubble_of_def
  chat_request_def envelope_def error_message_def

lemma sample_loading:
  "isLoading (ui (run [Mount 1000 ''0.abcdefghijklm'', Change ''hi'', Submit 1 2 3] init_world))"
  by (simp add: mount_def change_def handleSendMessage_def render_def init_world_def init_app_def
      trim_def is_white_def Let_def)

text \<open>
  An instance: after the message \<^verbatim>\<open>hi\<close> has been sent, a second submit changes nothing
  and both controls are disabled.
\<close>

theorem at_most_one_request_in_flight_witness:
  "isLoading (ui (run [Mount 1000 ''0.abcdefghijklm'', Change ''hi'', Submit 1 2 3] init_world))
   \<and> length (pending (run [Mount 1000 ''0.abcdefghijklm'', Change ''hi'', Submit 1 2 3] init_world)) \<le> 1
   \<and> pending (run [Mount 1000 ''0.abcdefghijklm'', Change ''hi'', Submit 1 2 3] init_world) \<noteq> []
   \<and> step (Submit 4 5 6) (run [Mount 1000 ''0.abcdefghijklm'', Change ''hi'', Submit 1 2 3] init_world)
       = run [Mount 1000 ''0.abcdefghijklm'', Change ''hi'', Submit 1 2 3] init_world
   \<and> (case render (ui (run [Mount 1000 ''0.abcdefghijklm'', Change ''hi'', Submit 1 2 3] init_world)) of
         Inl e \<Rightarrow> False
       | Inr v \<Rightarrow> v_input_disabled v \<and> v_button_disabled v)"
proof -
  let ?w = "run [Mount 1000 ''0.abcdefghijklm'', Change ''hi'', Submit 1 2 3] init_world"
  have shown: "case render (ui ?w) of Inl e \<Rightarrow> False | Inr v \<Rightarrow> v_input_disabled v \<and> v_button_disabled v"
    by (simp only: sample_page) simp
  from at_most_one_request_in_flight
          [of "[Mount 1000 ''0.abcdefghijklm'', Change ''hi'', Submit 1 2 3]" 4 5 6]
  show ?thesis using sample_loading shown by blast
qed

subsection \<open>Completion of a send\<close>

lemma pending_kept_step:
  assumes "\<not> is_settle e" and "pending w \<noteq> []"
    and "length (pending w) = (if isLoading (ui w) then 1 else 0)"
  shows "pending (step e w) = pending w"
  using assms
  by (cases e)
     (auto simp: mount_def change_def handleSendMessage_def clearChat_def Let_def split: if_splits)

lemma pending_kept_run:
  assumes "\<forall>e\<in>set evs. \<not> is_settle e" and "pending w \<noteq> []"
    and "length (pending w) = (if isLoading (ui w) then 1 else 0)"
  shows "pending (run evs w) = pending w"
  using assms
proof (induction evs arbitrary: w)
  case Nil
  then show ?case by simp
next
  case (Cons e evs)
  have keep: "pending (step e w) = pending w"
    using Cons.prems by (intro pending_kept_step) simp_all
  have inv: "length (pending (step e w)) = (if isLoading (ui (step e w)) then 1 else 0)"
    using Cons.prems(3) by (rule in_flight_step)
  have "pending (run evs (step e w)) = pending (step e w)"
    using Cons.prems keep inv by (intro Cons.IH) simp_all
  then show ?case using keep by simp
qed

lemma submit_accepted:
  assumes "trim (inputText (ui w)) \<noteq> []" and "\<not> isLoading (ui w)"
  shows "messages (ui (handleSendMessage t1 t2 t3 w)) =
           messages (ui w) @ [\<lparr>msg_id = t1, msg_text = JStr (inputText (ui w)),
                                msg_sender = User, msg_timestamp = t2\<rparr>]"
    and "isLoading (ui (handleSendMessage t1 t2 t3 w))"
    and "pending (handleSendMessage t1 t2 t3 w) =
           pending w @ [chat_request (''msg-'' @ show_int t3) (sessionId (ui w)) (inputText (ui w))]"
  using assms by (simp_all add: handleSendMessage_def Let_def)

lemma settle_resumes:
  assumes "pending w \<noteq> []"
  shows "messages (ui (settle out now stamp w)) = messages (ui w) @ [reply_message out now stamp]"
    and "\<not> isLoading (ui (settle out now stamp w))"
    and "pending (settle out now stamp w) = tl (pending w)"
  using assms by (cases "pending w"; simp add: settle_def)+

lemma reply_sender: "msg_sender (reply_message out now stamp) = Bot"
  by (simp add: reply_message_def split: sum.splits)

lemma reply_error:
  "reply_text out = Inl e \<Longrightarrow> begins_with_Error (msg_text (reply_message out now stamp))"
  by (simp add: reply_message_def)

text \<open>
  Claim C8. Let a submit pass the guard (the trimmed input is not empty and
  \<^verbatim>\<open>isLoading\<close> is false) in a state reached from the initial one, and let any events
  but a resumption follow. Then the call is still suspended and \<^verbatim>\<open>isLoading\<close> is true;
  and whatever the promises settle to, the resumption leaves no call suspended, sets
  \<^verbatim>\<open>isLoading\<close> to false and appends exactly one message, sent by the bot. If
  \<^verbatim>\<open>fetch\<close> rejected, or the status is not 2xx, or \<^verbatim>\<open>response.json()\<close> rejected, or
  reading the parsed document threw, the text of that message begins with
  \<^verbatim>\<open>Error:\<close>. (The handler has no loop: it ends as soon as its promises settle.)
\<close>

theorem send_completes_with_one_bot_message:
  assumes "trim (inputText (ui (run evs0 init_world))) \<noteq> []"
    and "\<not> isLoading (ui (run evs0 init_world))"
    and "\<forall>e\<in>set evs1. \<not> is_settle e"
  shows "let w0 = run evs0 init_world;
             w1 = step (Submit t1 t2 t3) w0;
             w2 = run evs1 w1;
             w3 = step (Settle out now stamp) w2
         in pending w2 \<noteq> [] \<and> isLoading (ui w2)
            \<and> pending w3 = [] \<and> \<not> isLoading (ui w3)
            \<and> messages (ui w3) = messages (ui w2) @ [reply_message out now stamp]
            \<and> msg_sender (reply_message out now stamp) = Bot
            \<and> ((\<exists>e. out = FetchRejected e)
                \<or> (\<exists>status body. out = Responded status body \<and> \<not> ok status)
                \<or> (\<exists>status e. out = Responded status (JsonRejected e))
                \<or> (\<exists>status data e. out = Responded status (JsonParsed data) \<and> botText data = Inl e)
                \<longrightarrow> begins_with_Error (msg_text (reply_message out now stamp)))"
proof -
  let ?w0 = "run evs0 init_world"
  let ?w1 = "step (Submit t1 t2 t3) ?w0"
  let ?w2 = "run evs1 ?w1"
  let ?w3 = "step (Settle out now stamp) ?w2"
  have inv0: "length (pending ?w0) = (if isLoading (ui ?w0) then 1 else 0)"
    by (rule in_flight_reachable)
  have inv1: "length (pending ?w1) = (if isLoading (ui ?w1) then 1 else 0)"
    using inv0 by (rule in_flight_step)
  have inv2: "length (pending ?w2) = (if isLoading (ui ?w2) then 1 else 0)"
    using inv1 by (rule in_flight_run)
  have p1: "pending ?w1 \<noteq> []"
    using assms(1,2) by (simp add: submit_accepted(3))
  have p2: "pending ?w2 = pending ?w1"
    using assms(3) p1 inv1 by (rule pending_kept_run)
  have a: "pending ?w2 \<noteq> []" using p1 p2 by simp
  have b: "isLoading (ui ?w2)" using a inv2 by (auto split: if_splits)
  have len2: "length (pending ?w2) = 1" using b inv2 by simp
  have c: "pending ?w3 = []"
    using len2 a by (cases "pending ?w2") (simp_all add: settle_resumes(3))
  have d: "\<not> isLoading (ui ?w3)" using a by (simp add: settle_resumes(2))
  have e: "messages (ui ?w3) = messages (ui ?w2) @ [reply_message out now stamp]"
    using a by (simp add: settle_resumes(1))
  have f: "(\<exists>e. out = FetchRejected e)
                \<or> (\<exists>status body. out = Responded status body \<and> \<not> ok status)
                \<or> (\<exists>status e. out = Responded status (JsonRejected e))
                \<or> (\<exists>status data e. out = Responded status (JsonParsed data) \<and> botText data = Inl e)
                \<longrightarrow> begins_with_Error (msg_text (reply_message out now stamp))"
  proof
    assume "(\<exists>e. out = FetchRejected e)
                \<or> (\<exists>status body. out = Responded status body \<and> \<not> ok status)
                \<or> (\<exists>status e. out = Responded status (JsonRejected e))
                \<or> (\<exists>status data e. out = Responded status (JsonParsed data) \<and> botText data = Inl e)"
    then have "\<exists>e. reply_text out = Inl e"
      by (auto simp: reply_text_def)
    then show "begins_with_Error (msg_text (reply_message out now stamp))"
      by (auto intro: reply_error)
  qed
  show ?thesis
    unfolding Let_def using a b c d e f reply_sender by blast
qed

lemma sample_guard:
  "trim (inputText (ui (run [Mount 1000 ''0.abcdefghijklm'', Change ''hi''] init_world))) \<noteq> []"
  "\<not> isLoading (ui (run [Mount 1000 ''0.abcdefghijklm'', Change ''hi''] init_world))"
  by (simp_all add: client_defs)

lemma sample_status_text: "show_nat 500 = ''500''"
  by code_simp

lemma sample_session: "newSessionId 1000 ''0.abcdefghijklm'' = ''session-1000-abcdefghi''"
  by code_simp

lemma sample_id: "show_int 3 = ''3''"
  by code_simp

lemma sample_error_text:
  "msg_text (reply_message (Responded 500 (JsonRejected NonError)) 7 8)
     = JStr ''Error: HTTP error! status: 500''"
  by (simp add: reply_message_def reply_text_def ok_def error_message_def sample_status_text)

text \<open>An instance: a response with status 500, after a second submit (ignored) and an
  attempt to type (ignored) while the request was in flight.\<close>

theorem send_completes_with_one_bot_message_witness:
  "trim (inputText (ui (run [Mount 1000 ''0.abcdefghijklm'', Change ''hi''] init_world))) \<noteq> []
   \<and> \<not> isLoading (ui (run [Mount 1000 ''0.abcdefghijklm'', Change ''hi''] init_world))
   \<and> list_all (\<lambda>e. \<not> is_settle e) [Submit 4 5 6, Change ''x'']
   \<and> \<not> ok 500
   \<and> \<not> isLoading (ui (step (Settle (Responded 500 (JsonRejected NonError)) 7 8)
         (run [Submit 4 5 6, Change ''x'']
           (step (Submit 1 2 3) (run [Mount 1000 ''0.abcdefghijklm'', Change ''hi''] init_world)))))
   \<and> pending (step (Settle (Responded 500 (JsonRejected NonError)) 7 8)
         (run [Submit 4 5 6, Change ''x'']
           (step (Submit 1 2 3) (run [Mount 1000 ''0.abcdefghijklm'', Change ''hi''] init_world)))) = []
   \<and> messages (ui (step (Settle (Responded 500 (JsonRejected NonError)) 7 8)
         (run [Submit 4 5 6, Change ''x'']
           (step (Submit 1 2 3) (run [Mount 1000 ''0.abcdefghijklm'', Change ''hi''] init_world)))))
       = messages (ui (run [Submit 4 5 6, Change ''x'']
           (step (Submit 1 2 3) (run [Mount 1000 ''0.abcdefghijklm'', Change ''hi''] init_world))))
         @ [reply_message (Responded 500 (JsonRejected NonError)) 7 8]
   \<and> msg_sender (reply_message (Responded 500 (JsonRejected NonError)) 7 8) = Bot
   \<and> begins_with_Error (msg_text (reply_message (Responded 500 (JsonRejected NonError)) 7 8))
   \<and> msg_text (reply_message (Responded 500 (JsonRejected NonError)) 7 8)
       = JStr ''Error: HTTP error! status: 500''"
proof -
  have h3: "\<forall>e\<in>set [Submit 4 5 6, Change ''x'']. \<not> is_settle e" by simp
  have h4: "\<not> ok 500" by (simp add: ok_def)
  from send_completes_with_one_bot_message
         [OF sample_guard h3, of 1 2 3 "Responded 500 (JsonRejected NonError)" 7 8]
  show ?thesis using sample_guard h4 sample_error_text unfolding Let_def by auto
qed

subsection \<open>The order of the messages\<close>

lemma exchanges_length: "length (exchanges n) = 2 * n"
  by (induction n) (simp_all add: exchanges_def)

lemma exchanges_Suc: "exchanges n @ [User, Bot] = exchanges (Suc n)"
  by (induction n) (simp_all add: exchanges_def)

lemma alternation_step:
  assumes alt: "map msg_sender (messages (ui w)) = exchanges n @ (if pending w = [] then [] else [User])"
    and inv: "length (pending w) = (if isLoading (ui w) then 1 else 0)"
    and idle: "is_clear e \<longrightarrow> pending w = []"
  shows "\<exists>m. map msg_sender (messages (ui (step e w))) =
               exchanges m @ (if pending (step e w) = [] then [] else [User])"
proof (cases e)
  case (Mount now rnd)
  then show ?thesis using alt by (auto simp: mount_def)
next
  case (Change v)
  then show ?thesis using alt by (auto simp: change_def)
next
  case (Submit t1 t2 t3)
  show ?thesis
  proof (cases "trim (inputText (ui w)) = [] \<or> isLoading (ui w)")
    case True
    then have "step e w = w" using Submit by (simp add: handleSendMessage_def)
    then show ?thesis using alt by auto
  next
    case False
    then have "pending w = []" using inv by simp
    then show ?thesis using alt False Submit
      by (auto simp: handleSendMessage_def Let_def)
  qed
next
  case (Settle out now stamp)
  show ?thesis
  proof (cases "pending w")
    case Nil
    then have "step e w = w" using Settle by (simp add: settle_def)
    then show ?thesis using alt by auto
  next
    case (Cons r rs)
    then have "rs = []" using inv by (simp split: if_splits)
    then have "map msg_sender (messages (ui (step e w))) = exchanges n @ [User, Bot]"
      and "pending (step e w) = []"
      using alt Cons Settle by (simp_all add: settle_def reply_sender)
    then show ?thesis by (auto simp: exchanges_Suc)
  qed
next
  case (Clear now rnd)
  then have "pending w = []" using idle by simp
  then have "map msg_sender (messages (ui (step e w))) = exchanges 0 @ []"
    and "pending (step e w) = []"
    using Clear by (simp_all add: clearChat_def exchanges_def)
  then show ?thesis by (metis (full_types))
qed

lemma alternation_run:
  assumes "\<exists>n. map msg_sender (messages (ui w)) = exchanges n @ (if pending w = [] then [] else [User])"
    and "length (pending w) = (if isLoading (ui w) then 1 else 0)"
    and "clears_when_idle evs w"
  shows "\<exists>m. map msg_sender (messages (ui (run evs w))) =
               exchanges m @ (if pending (run evs w) = [] then [] else [User])"
  using assms
proof (induction evs arbitrary: w)
  case Nil
  then show ?case by simp
next
  case (Cons e evs)
  from Cons.prems(1) obtain n where
    n: "map msg_sender (messages (ui w)) = exchanges n @ (if pending w = [] then [] else [User])"
    by blast
  have idle: "is_clear e \<longrightarrow> pending w = []" using Cons.prems(3) by simp
  have alt': "\<exists>m. map msg_sender (messages (ui (step e w))) =
               exchanges m @ (if pending (step e w) = [] then [] else [User])"
    using n Cons.prems(2) idle by (rule alternation_step)
  have inv': "length (pending (step e w)) = (if isLoading (ui (step e w)) then 1 else 0)"
    using Cons.prems(2) by (rule in_flight_step)
  have rest: "clears_when_idle evs (step e w)" using Cons.prems(3) by simp
  show ?case using Cons.IH [OF alt' inv' rest] by simp
qed

lemma append_only_step:
  "\<not> is_clear e \<Longrightarrow> \<exists>ms. messages (ui (step e w)) = messages (ui w) @ ms"
  by (cases e)
     (auto simp: mount_def change_def handleSendMessage_def settle_def Let_def split: list.splits)

text \<open>
  Claim C10, as written, fails when the clear button is pressed while a request is in
  flight (the button is never disabled): the list is emptied, and the resumption then
  appends the bot message alone. No request is in flight afterwards, and the list has
  one entry, sent by the bot.
\<close>

theorem clear_in_flight_counterexample:
  "pending (run [Mount 1000 ''0.abcdefghijklm'', Change ''hi'', Submit 1 2 3,
                 Clear 5 ''0.zyxwvutsrqp'',
                 Settle (Responded 200 (JsonParsed (JObj [(''type'', JStr ''chat_reply''),
                   (''id'', JStr ''msg-3''), (''session_id'', JStr ''session-1000-abcdefghi''),
                   (''payload'', JObj [(''text'', JStr ''yo'')])]))) 7 8] init_world) = []
   \<and> messages (ui (run [Mount 1000 ''0.abcdefghijklm'', Change ''hi'', Submit 1 2 3,
                 Clear 5 ''0.zyxwvutsrqp'',
                 Settle (Responded 200 (JsonParsed (JObj [(''type'', JStr ''chat_reply''),
                   (''id'', JStr ''msg-3''), (''session_id'', JStr ''session-1000-abcdefghi''),
                   (''payload'', JObj [(''text'', JStr ''yo'')])]))) 7 8] init_world))
      = [\<lparr>msg_id = 8, msg_text = JStr ''yo'', msg_sender = Bot, msg_timestamp = 8\<rparr>]"
  by (simp add: mount_def change_def handleSendMessage_def clearChat_def settle_def render_def
      init_world_def init_app_def trim_def is_white_def Let_def
      reply_message_def reply_text_def ok_def botText_def chat_reply_text_def)

text \<open>
  Claim C10, amended. In every run from the initial state in which the clear button is
  pressed only while no request is in flight: whenever no request is in flight, the list
  has even length and its senders are user, bot, user, bot, ... from the start; while
  one is in flight, the senders are such a list followed by one user entry. And in any
  state, an event other than a clear keeps the list as a prefix of the new list.
\<close>

theorem messages_alternate_when_clears_are_idle:
  assumes "clears_when_idle evs init_world"
  shows "(pending (run evs init_world) = [] \<longrightarrow>
            even (length (messages (ui (run evs init_world))))
            \<and> map msg_sender (messages (ui (run evs init_world))) =
                 exchanges (length (messages (ui (run evs init_world))) div 2))
       \<and> (pending (run evs init_world) \<noteq> [] \<longrightarrow>
            map msg_sender (messages (ui (run evs init_world))) =
              exchanges (length (messages (ui (run evs init_world))) div 2) @ [User])
       \<and> (\<not> is_clear e \<longrightarrow>
            take (length (messages (ui w))) (messages (ui (step e w))) = messages (ui w))"
proof -
  let ?w = "run evs init_world"
  have "\<exists>n. map msg_sender (messages (ui init_world)) =
          exchanges n @ (if pending init_world = [] then [] else [User])"
    by (rule exI [of _ 0]) (simp add: init_world_def init_app_def exchanges_def)
  moreover have "length (pending init_world) = (if isLoading (ui init_world) then 1 else 0)"
    by (simp add: init_world_def init_app_def)
  ultimately obtain m where
    m: "map msg_sender (messages (ui ?w)) = exchanges m @ (if pending ?w = [] then [] else [User])"
    using assms alternation_run by blast
  have len: "length (messages (ui ?w)) = 2 * m + (if pending ?w = [] then 0 else 1)"
    using arg_cong [OF m, of length] by (simp add: exchanges_length)
  then have half: "length (messages (ui ?w)) div 2 = m"
    by (simp split: if_splits)
  have a: "pending ?w = [] \<longrightarrow> even (length (messages (ui ?w)))
            \<and> map msg_sender (messages (ui ?w)) = exchanges (length (messages (ui ?w)) div 2)"
    using m len half by simp
  have b: "pending ?w \<noteq> [] \<longrightarrow>
            map msg_sender (messages (ui ?w)) = exchanges (length (messages (ui ?w)) div 2) @ [User]"
    using m half by simp
  have c: "\<not> is_clear e \<longrightarrow> take (length (messages (ui w))) (messages (ui (step e w))) = messages (ui w)"
    using append_only_step [of e w] by auto
  show ?thesis using a b c by blast
qed

text \<open>Two instances: two completed sends with a clear between them, and a send in
  flight.\<close>

theorem messages_alternate_when_clears_are_idle_witness:
  "clears_when_idle [Mount 1000 ''0.abcdefghijklm'', Change ''hi'', Submit 1 2 3,
       Settle (FetchRejected NonError) 7 8, Clear 9 ''0.zyxwvutsrqp'', Change ''yo'', Submit 11 12 13,
       Settle (FetchRejected NonError) 17 18] init_world
   \<and> pending (run [Mount 1000 ''0.abcdefghijklm'', Change ''hi'', Submit 1 2 3,
       Settle (FetchRejected NonError) 7 8, Clear 9 ''0.zyxwvutsrqp'', Change ''yo'', Submit 11 12 13,
       Settle (FetchRejected NonError) 17 18] init_world) = []
   \<and> even (length (messages (ui (run [Mount 1000 ''0.abcdefghijklm'', Change ''hi'', Submit 1 2 3,
       Settle (FetchRejected NonError) 7 8, Clear 9 ''0.zyxwvutsrqp'', Change ''yo'', Submit 11 12 13,
       Settle (FetchRejected NonError) 17 18] init_world))))
   \<and> map msg_sender (messages (ui (run [Mount 1000 ''0.abcdefghijklm'', Change ''hi'', Submit 1 2 3,
       Settle (FetchRejected NonError) 7 8, Clear 9 ''0.zyxwvutsrqp'', Change ''yo'', Submit 11 12 13,
       Settle (FetchRejected NonError) 17 18] init_world))) = [User, Bot]
   \<and> clears_when_idle [Mount 1000 ''0.abcdefghijklm'', Change ''hi'', Submit 1 2 3] init_world
   \<and> pending (run [Mount 1000 ''0.abcdefghijklm'', Change ''hi'', Submit 1 2 3] init_world) \<noteq> []
   \<and> map msg_sender (messages (ui (run [Mount 1000 ''0.abcdefghijklm'', Change ''hi'', Submit 1 2 3]
         init_world))) = [User]
   \<and> \<not> is_clear (Settle (FetchRejected NonError) 7 8)
   \<and> take (length (messages (ui (run [Mount 1000 ''0.abcdefghijklm'', Change ''hi'', Submit 1 2 3]
         init_world))))
        (messages (ui (step (Settle (FetchRejected NonError) 7 8)
           (run [Mount 1000 ''0.abcdefghijklm'', Change ''hi'', Submit 1 2 3] init_world))))
       = messages (ui (run [Mount 1000 ''0.abcdefghijklm'', Change ''hi'', Submit 1 2 3] init_world))"
proof -
  let ?e1 = "[Mount 1000 ''0.abcdefghijklm'', Change ''hi'', Submit 1 2 3,
       Settle (FetchRejected NonError) 7 8, Clear 9 ''0.zyxwvutsrqp'', Change ''yo'', Submit 11 12 13,
       Settle (FetchRejected NonError) 17 18]"
  let ?e2 = "[Mount 1000 ''0.abcdefghijklm'', Change ''hi'', Submit 1 2 3]"
  have c1: "clears_when_idle ?e1 init_world" by (simp add: client_defs)
  have c2: "clears_when_idle ?e2 init_world" by (simp add: client_defs)
  have p1: "pending (run ?e1 init_world) = []" by (simp add: client_defs)
  have p2: "pending (run ?e2 init_world) \<noteq> []" by (rule sample_pending)
  have l1: "length (messages (ui (run ?e1 init_world))) = 2" by (simp add: client_defs)
  have l2: "length (messages (ui (run ?e2 init_world))) = 1" by (simp add: client_defs)
  have x1: "exchanges (2 div 2) = [User, Bot]" and x0: "exchanges (1 div 2) = []"
    by (simp_all add: exchanges_def)
  have n: "\<not> is_clear (Settle (FetchRejected NonError) 7 8)" by simp
  note t1 = messages_alternate_when_clears_are_idle
              [OF c1, of "Settle (FetchRejected NonError) 7 8" "run ?e2 init_world"]
  note t2 = messages_alternate_when_clears_are_idle
              [OF c2, of "Settle (FetchRejected NonError) 7 8" "run ?e2 init_world"]
  have r1: "even (length (messages (ui (run ?e1 init_world))))
            \<and> map msg_sender (messages (ui (run ?e1 init_world))) =
                 exchanges (length (messages (ui (run ?e1 init_world))) div 2)"
    using t1 p1 by blast
  have s1: "map msg_sender (messages (ui (run ?e1 init_world))) = [User, Bot]"
    using r1 by (simp only: l1 x1)
  have r2: "map msg_sender (messages (ui (run ?e2 init_world))) =
              exchanges (length (messages (ui (run ?e2 init_world))) div 2) @ [User]"
    using t2 p2 by blast
  have s2: "map msg_sender (messages (ui (run ?e2 init_world))) = [User]"
    using r2 by (simp only: l2 x0 append_Nil)
  have s3: "take (length (messages (ui (run ?e2 init_world))))
              (messages (ui (step (Settle (FetchRejected NonError) 7 8) (run ?e2 init_world))))
            = messages (ui (run ?e2 init_world))"
    using t2 n by blast
  show ?thesis using c1 c2 p1 p2 r1 s1 s2 s3 n by (intro conjI) blast+
qed

subsection \<open>What the page shows\<close>




subsection \<open>Session identifiers\<close>

lemma digit_char_inj: "a < 10 \<Longrightarrow> b < 10 \<Longrightarrow> digit_char a = digit_char b \<Longrightarrow> a = b"
proof -
  assume a: "a < 10" and b: "b < 10" and e: "digit_char a = digit_char b"
  from e have "(of_char (char_of (48 + a)) :: nat) = of_char (char_of (48 + b))"
    by (simp add: digit_char_def)
  then show "a = b" using a b by simp
qed

lemma digit_char_not_dash: "d < 10 \<Longrightarrow> digit_char d \<noteq> CHR ''-''"
proof
  assume d: "d < 10" and e: "digit_char d = CHR ''-''"
  from e have "(of_char (char_of (48 + d)) :: nat) = of_char (CHR ''-'')"
    by (simp add: digit_char_def)
  then show False using d by simp
qed

lemma show_nat_nonempty: "show_nat n \<noteq> []"
  by (subst show_nat.simps) simp

lemma show_nat_no_dash: "CHR ''-'' \<notin> set (show_nat n)"
proof (induction n rule: show_nat.induct)
  case (1 n)
  show ?case
  proof (cases "n < 10")
    case True
    then show ?thesis using digit_char_not_dash [of n] by (subst show_nat.simps) auto
  next
    case False
    then show ?thesis using "1.IH" digit_char_not_dash [of "n mod 10"]
      by (subst show_nat.simps) auto
  qed
qed

lemma show_nat_inj: "show_nat m = show_nat n \<Longrightarrow> m = n"
proof (induction m arbitrary: n rule: show_nat.induct)
  case (1 m)
  show ?case
  proof (cases "m < 10")
    case m: True
    show ?thesis
    proof (cases "n < 10")
      case True
      then show ?thesis using m "1.prems" digit_char_inj [of m n]
        by (simp add: show_nat.simps [of m] show_nat.simps [of n])
    next
      case False
      then show ?thesis using m "1.prems" show_nat_nonempty [of "n div 10"]
        by (simp add: show_nat.simps [of m] show_nat.simps [of n])
    qed
  next
    case m: False
    show ?thesis
    proof (cases "n < 10")
      case True
      then show ?thesis using m "1.prems" show_nat_nonempty [of "m div 10"]
        by (simp add: show_nat.simps [of m] show_nat.simps [of n])
    next
      case False
      then have eq: "show_nat (m div 10) = show_nat (n div 10)"
        and d: "digit_char (m mod 10) = digit_char (n mod 10)"
        using m "1.prems" by (simp_all add: show_nat.simps [of m] show_nat.simps [of n])
      from "1.IH" [OF m eq] have "m div 10 = n div 10" .
      moreover from d have "m mod 10 = n mod 10" by (intro digit_char_inj) simp_all
      ultimately show ?thesis by (metis div_mult_mod_eq)
    qed
  qed
qed

lemma split_at_dash:
  assumes "CHR ''-'' \<notin> set xs" and "CHR ''-'' \<notin> set ys"
    and "xs @ CHR ''-'' # r = ys @ CHR ''-'' # s"
  shows "xs = ys"
proof -
  have "takeWhile (\<lambda>c. c \<noteq> CHR ''-'') (xs @ CHR ''-'' # r) = xs"
    using assms(1) by (induction xs) auto
  moreover have "takeWhile (\<lambda>c. c \<noteq> CHR ''-'') (ys @ CHR ''-'' # s) = ys"
    using assms(2) by (induction ys) auto
  ultimately show ?thesis using assms(3) by simp
qed

lemma show_nat_head: "hd (show_nat n) \<noteq> CHR ''-''"
  using show_nat_no_dash [of n] show_nat_nonempty [of n]
  by (cases "show_nat n") auto

lemma newSessionId_clock:
  assumes "newSessionId now rnd = newSessionId now' rnd'"
  shows "now = now'"
proof -
  from assms have eq: "show_int now @ CHR ''-'' # substr 2 9 rnd = show_int now' @ CHR ''-'' # substr 2 9 rnd'"
    by (simp add: newSessionId_def)
  show ?thesis
  proof (cases "now < 0"; cases "now' < 0")
    assume a: "now < 0" and b: "now' < 0"
    from eq a b have "show_nat (nat (- now)) @ CHR ''-'' # substr 2 9 rnd
        = show_nat (nat (- now')) @ CHR ''-'' # substr 2 9 rnd'"
      by (simp add: show_int_def)
    then have "show_nat (nat (- now)) = show_nat (nat (- now'))"
      by (rule split_at_dash [OF show_nat_no_dash show_nat_no_dash])
    then have "nat (- now) = nat (- now')" by (rule show_nat_inj)
    then show ?thesis using a b by simp
  next
    assume a: "now < 0" and b: "\<not> now' < 0"
    from eq a b have "CHR ''-'' # show_nat (nat (- now)) @ CHR ''-'' # substr 2 9 rnd
        = show_nat (nat now') @ CHR ''-'' # substr 2 9 rnd'"
      by (simp add: show_int_def)
    then have "hd (show_nat (nat now')) = CHR ''-''"
      using show_nat_nonempty [of "nat now'"] by (cases "show_nat (nat now')") auto
    then show ?thesis using show_nat_head by blast
  next
    assume a: "\<not> now < 0" and b: "now' < 0"
    from eq a b have "show_nat (nat now) @ CHR ''-'' # substr 2 9 rnd
        = CHR ''-'' # show_nat (nat (- now')) @ CHR ''-'' # substr 2 9 rnd'"
      by (simp add: show_int_def)
    then have "hd (show_nat (nat now)) = CHR ''-''"
      using show_nat_nonempty [of "nat now"] by (cases "show_nat (nat now)") auto
    then show ?thesis using show_nat_head by blast
  next
    assume a: "\<not> now < 0" and b: "\<not> now' < 0"
    from eq a b have "show_nat (nat now) @ CHR ''-'' # substr 2 9 rnd
        = show_nat (nat now') @ CHR ''-'' # substr 2 9 rnd'"
      by (simp add: show_int_def)
    then have "show_nat (nat now) = show_nat (nat now')"
      by (rule split_at_dash [OF show_nat_no_dash show_nat_no_dash])
    then have "nat now = nat now'" by (rule show_nat_inj)
    then show ?thesis using a b by simp
  qed
qed

lemma session_step:
  assumes "\<not> is_mint e"
  shows "sessionId (ui (step e w)) = sessionId (ui w)
       \<and> (\<exists>new. sent (step e w) = sent w @ new
            \<and> (\<forall>r\<in>set new. optional_prop (Some (req_body r)) ''session_id''
                              = Some (JStr (sessionId (ui w)))))"
  using assms
  by (cases e)
     (auto simp: change_def handleSendMessage_def settle_def Let_def chat_request_def envelope_def
           split: list.splits)

lemma session_run:
  assumes "\<forall>e\<in>set evs. \<not> is_mint e"
  shows "sessionId (ui (run evs w)) = sessionId (ui w)
       \<and> (\<exists>new. sent (run evs w) = sent w @ new
            \<and> (\<forall>r\<in>set new. optional_prop (Some (req_body r)) ''session_id''
                              = Some (JStr (sessionId (ui w)))))"
  using assms
proof (induction evs arbitrary: w)
  case Nil
  then show ?case by simp
next
  case (Cons e evs)
  have e: "\<not> is_mint e" and rest: "\<forall>e\<in>set evs. \<not> is_mint e"
    using Cons.prems by simp_all
  from session_step [OF e, of w] obtain new1 where
    s1: "sessionId (ui (step e w)) = sessionId (ui w)"
    and n1: "sent (step e w) = sent w @ new1"
    and a1: "\<forall>r\<in>set new1. optional_prop (Some (req_body r)) ''session_id''
                              = Some (JStr (sessionId (ui w)))"
    by blast
  from Cons.IH [OF rest, of "step e w"] obtain new2 where
    s2: "sessionId (ui (run evs (step e w))) = sessionId (ui (step e w))"
    and n2: "sent (run evs (step e w)) = sent (step e w) @ new2"
    and a2: "\<forall>r\<in>set new2. optional_prop (Some (req_body r)) ''session_id''
                              = Some (JStr (sessionId (ui (step e w))))"
    by blast
  have "sent (run (e # evs) w) = sent w @ (new1 @ new2)"
    using n1 n2 by simp
  moreover have "\<forall>r\<in>set (new1 @ new2). optional_prop (Some (req_body r)) ''session_id''
                              = Some (JStr (sessionId (ui w)))"
    using a1 a2 s1 by auto
  moreover have "sessionId (ui (run (e # evs) w)) = sessionId (ui w)"
    using s1 s2 by simp
  ultimately show ?case by blast
qed

text \<open>
  Claim C4. The mount effect and the clear action each set the session identifier to a
  string built by the client from its clock and its random source; identifiers built
  at different clock readings differ. No other event changes it, whatever the server
  answers: over any events without a mount or a clear, the identifier stays the same,
  the log of requests only grows, and every request sent meanwhile carries that
  identifier as its \<^verbatim>\<open>session_id\<close>.
\<close>

theorem session_id_is_client_minted:
  assumes "\<forall>e\<in>set evs. \<not> is_mint e"
  shows "sessionId (ui (step (Mount now rnd) w0)) = newSessionId now rnd
       \<and> sessionId (ui (step (Clear now rnd) w0)) = newSessionId now rnd
       \<and> sessionId (ui (run evs w)) = sessionId (ui w)
       \<and> take (length (sent w)) (sent (run evs w)) = sent w
       \<and> (\<forall>r\<in>set (drop (length (sent w)) (sent (run evs w))).
            optional_prop (Some (req_body r)) ''session_id'' = Some (JStr (sessionId (ui w))))
       \<and> (now \<noteq> now' \<longrightarrow> newSessionId now rnd \<noteq> newSessionId now' rnd')"
proof -
  from session_run [OF assms, of w] obtain new where
    s: "sessionId (ui (run evs w)) = sessionId (ui w)"
    and n: "sent (run evs w) = sent w @ new"
    and a: "\<forall>r\<in>set new. optional_prop (Some (req_body r)) ''session_id''
                              = Some (JStr (sessionId (ui w)))"
    by blast
  have "sessionId (ui (step (Mount now rnd) w0)) = newSessionId now rnd"
    by (simp add: mount_def)
  moreover have "sessionId (ui (step (Clear now rnd) w0)) = newSessionId now rnd"
    by (simp add: clearChat_def)
  moreover have "now \<noteq> now' \<longrightarrow> newSessionId now rnd \<noteq> newSessionId now' rnd'"
    using newSessionId_clock by blast
  ultimately show ?thesis using s n a by simp
qed

text \<open>An instance: one send after a clear.\<close>

theorem session_id_is_client_minted_witness:
  "list_all (\<lambda>e. \<not> is_mint e) [Change ''hi'', Submit 1 2 3, Settle (FetchRejected NonError) 7 8]
   \<and> sessionId (ui (step (Mount 1000 ''0.abcdefghijklm'') init_world)) = ''session-1000-abcdefghi''
   \<and> sessionId (ui (step (Clear 1000 ''0.abcdefghijklm'') init_world)) = ''session-1000-abcdefghi''
   \<and> sessionId (ui (run [Change ''hi'', Submit 1 2 3, Settle (FetchRejected NonError) 7 8]
         (step (Clear 1000 ''0.abcdefghijklm'') init_world))) = ''session-1000-abcdefghi''
   \<and> chat_request ''msg-3'' ''session-1000-abcdefghi'' ''hi''
       \<in> set (drop (length (sent (step (Clear 1000 ''0.abcdefghijklm'') init_world)))
           (sent (run [Change ''hi'', Submit 1 2 3, Settle (FetchRejected NonError) 7 8]
              (step (Clear 1000 ''0.abcdefghijklm'') init_world))))
   \<and> optional_prop (Some (req_body (chat_request ''msg-3'' ''session-1000-abcdefghi'' ''hi'')))
        ''session_id'' = Some (JStr ''session-1000-abcdefghi'')
   \<and> (1000::int) \<noteq> 2000
   \<and> newSessionId 1000 ''0.abcdefghijklm'' \<noteq> newSessionId 2000 ''0.abcdefghijklm''"
proof -
  let ?evs = "[Change ''hi'', Submit 1 2 3, Settle (FetchRejected NonError) 7 8]"
  let ?w = "step (Clear 1000 ''0.abcdefghijklm'') init_world"
  have h: "\<forall>e\<in>set ?evs. \<not> is_mint e" by simp
  have sid: "sessionId (ui ?w) = ''session-1000-abcdefghi''"
    by (simp add: clearChat_def sample_session)
  have new: "drop (length (sent ?w)) (sent (run ?evs ?w))
              = [chat_request ''msg-3'' ''session-1000-abcdefghi'' ''hi'']"
    by (simp add: client_defs sample_session sample_id)
  note t = session_id_is_client_minted
             [OF h, of 1000 "''0.abcdefghijklm''" init_world ?w 2000 "''0.abcdefghijklm''"]
  have fresh: "newSessionId 1000 ''0.abcdefghijklm'' \<noteq> newSessionId 2000 ''0.abcdefghijklm''"
    using t by simp
  show ?thesis using t sid new fresh by (simp add: sample_session)
qed

subsection \<open>Requests\<close>

lemma well_formed_step:
  assumes "\<forall>r\<in>set (sent w). P r"
    and "\<And>uniqueId sid txt. trim txt \<noteq> [] \<Longrightarrow> P (chat_request uniqueId sid txt)"
  shows "\<forall>r\<in>set (sent (step e w)). P r"
  using assms
  by (cases e)
     (auto simp: mount_def change_def handleSendMessage_def settle_def clearChat_def Let_def
           split: list.splits)

lemma well_formed_run:
  assumes "\<forall>r\<in>set (sent w). P r"
    and "\<And>uniqueId sid txt. trim txt \<noteq> [] \<Longrightarrow> P (chat_request uniqueId sid txt)"
  shows "\<forall>r\<in>set (sent (run evs w)). P r"
  using assms(1)
proof (induction evs arbitrary: w)
  case Nil
  then show ?case by simp
next
  case (Cons e evs)
  have "\<forall>r\<in>set (sent (step e w)). P r"
    using Cons.prems assms(2) by (rule well_formed_step)
  then show ?case using Cons.IH by simp
qed

lemma decode_envelope:
  "trim txt \<noteq> [] \<Longrightarrow>
   decode (envelope uniqueId sid txt) =
     Inr \<lparr>um_id = Some (JStr uniqueId), um_session_id = JStr sid, um_text = txt\<rparr>"
  by (simp add: decode_def envelope_def)

text \<open>
  Claim C2. Every request the client ever sends has as its body an envelope with
  exactly the fields \<^verbatim>\<open>type\<close> (\<^verbatim>\<open>'user_message'\<close>), \<^verbatim>\<open>id\<close>, \<^verbatim>\<open>session_id\<close> (a string)
  and \<^verbatim>\<open>payload\<close> (\<^verbatim>\<open>{text}\<close>), where the text is a string that is not empty after
  trimming; the codec decodes it, so its \<^verbatim>\<open>MalformedRequest\<close> branch is not taken.
\<close>

theorem client_requests_are_well_formed:
  "\<forall>r\<in>set (sent (run evs init_world)).
     \<exists>uniqueId sid txt.
       req_body r = JObj [(''type'', JStr ''user_message''),
                          (''id'', JStr uniqueId),
                          (''session_id'', JStr sid),
                          (''payload'', JObj [(''text'', JStr txt)])]
       \<and> trim txt \<noteq> []
       \<and> decode (req_body r) =
           Inr \<lparr>um_id = Some (JStr uniqueId), um_session_id = JStr sid, um_text = txt\<rparr>
       \<and> decode (req_body r) \<noteq> Inl MalformedRequest"
proof (rule well_formed_run)
  show "\<forall>r\<in>set (sent init_world). \<exists>uniqueId sid txt.
       req_body r = JObj [(''type'', JStr ''user_message''),
                          (''id'', JStr uniqueId),
                          (''session_id'', JStr sid),
                          (''payload'', JObj [(''text'', JStr txt)])]
       \<and> trim txt \<noteq> []
       \<and> decode (req_body r) =
           Inr \<lparr>um_id = Some (JStr uniqueId), um_session_id = JStr sid, um_text = txt\<rparr>
       \<and> decode (req_body r) \<noteq> Inl MalformedRequest"
    by (simp add: init_world_def)
next
  fix uniqueId sid inp
  assume t: "trim inp \<noteq> []"
  have "req_body (chat_request uniqueId sid inp) = JObj [(''type'', JStr ''user_message''),
                          (''id'', JStr uniqueId),
                          (''session_id'', JStr sid),
                          (''payload'', JObj [(''text'', JStr inp)])]"
    by (simp add: chat_request_def envelope_def)
  moreover have "decode (req_body (chat_request uniqueId sid inp)) =
           Inr \<lparr>um_id = Some (JStr uniqueId), um_session_id = JStr sid, um_text = inp\<rparr>"
    using t by (simp add: chat_request_def decode_envelope)
  ultimately show "\<exists>uniqueId' sid' txt'.
       req_body (chat_request uniqueId sid inp) = JObj [(''type'', JStr ''user_message''),
                          (''id'', JStr uniqueId'),
                          (''session_id'', JStr sid'),
                          (''payload'', JObj [(''text'', JStr txt')])]
       \<and> trim txt' \<noteq> []
       \<and> decode (req_body (chat_request uniqueId sid inp)) =
           Inr \<lparr>um_id = Some (JStr uniqueId'), um_session_id = JStr sid', um_text = txt'\<rparr>
       \<and> decode (req_body (chat_request uniqueId sid inp)) \<noteq> Inl MalformedRequest"
    using t by auto
qed

text \<open>An instance: the request of the message \<^verbatim>\<open>hi\<close>.\<close>

theorem client_requests_are_well_formed_witness:
  "chat_request ''msg-3'' ''session-1000-abcdefghi'' ''hi''
     \<in> set (sent (run [Mount 1000 ''0.abcdefghijklm'', Change ''hi'', Submit 1 2 3] init_world))
   \<and> req_body (chat_request ''msg-3'' ''session-1000-abcdefghi'' ''hi'')
       = JObj [(''type'', JStr ''user_message''),
               (''id'', JStr ''msg-3''),
               (''session_id'', JStr ''session-1000-abcdefghi''),
               (''payload'', JObj [(''text'', JStr ''hi'')])]
   \<and> trim ''hi'' \<noteq> []
   \<and> decode (req_body (chat_request ''msg-3'' ''session-1000-abcdefghi'' ''hi''))
       = Inr \<lparr>um_id = Some (JStr ''msg-3''), um_session_id = JStr ''session-1000-abcdefghi'',
              um_text = ''hi''\<rparr>
   \<and> decode (req_body (chat_request ''msg-3'' ''session-1000-abcdefghi'' ''hi''))
       \<noteq> Inl MalformedRequest"
proof -
  let ?evs = "[Mount 1000 ''0.abcdefghijklm'', Change ''hi'', Submit 1 2 3]"
  let ?r = "chat_request ''msg-3'' ''session-1000-abcdefghi'' ''hi''"
  have m: "?r \<in> set (sent (run ?evs init_world))"
    by (simp add: client_defs sample_session sample_id)
  from client_requests_are_well_formed [of ?evs, THEN bspec, OF m]
  show ?thesis using m by (auto simp: chat_request_def envelope_def)
qed

subsection \<open>The clear button\<close>

text \<open>
  Claim C5, as written, fails: \<^verbatim>\<open>clearChat\<close> calls no \<^verbatim>\<open>fetch\<close>. After a completed send
  and a press of the clear button, the only request ever issued is the \<^verbatim>\<open>POST\<close> of the
  message; no \<^verbatim>\<open>DELETE /session/{session_id}\<close> has been sent.
\<close>

theorem clear_button_counterexample:
  "sent (run [Mount 1000 ''0.abcdefghijklm'', Change ''hi'', Submit 1 2 3,
              Settle (FetchRejected NonError) 7 8, Clear 9 ''0.zyxwvutsrqp''] init_world)
     = [\<lparr>req_method = ''POST'', req_url = ''http://localhost:8000/chat'',
         req_body = JObj [(''type'', JStr ''user_message''),
               (''id'', JStr ''msg-3''),
               (''session_id'', JStr ''session-1000-abcdefghi''),
               (''payload'', JObj [(''text'', JStr ''hi'')])]\<rparr>]
   \<and> sent (run [Mount 1000 ''0.abcdefghijklm'', Change ''hi'', Submit 1 2 3,
              Settle (FetchRejected NonError) 7 8, Clear 9 ''0.zyxwvutsrqp''] init_world)
     = sent (run [Mount 1000 ''0.abcdefghijklm'', Change ''hi'', Submit 1 2 3,
              Settle (FetchRejected NonError) 7 8] init_world)"
  by (simp add: client_defs sample_session sample_id)

text \<open>
  Claim C5, amended. The clear action issues no request: it leaves the log of requests
  and the suspended calls as they are, empties the local list of messages and mints a
  new session identifier. In every run, every request the client sends is a \<^verbatim>\<open>POST\<close> to
  \<^verbatim>\<open>/chat\<close>; the server's \<^verbatim>\<open>clear(session_id)\<close> is never invoked by the client.
\<close>

theorem clear_sends_no_request:
  "sent (step (Clear now rnd) w) = sent w
   \<and> pending (step (Clear now rnd) w) = pending w
   \<and> messages (ui (step (Clear now rnd) w)) = []
   \<and> sessionId (ui (step (Clear now rnd) w)) = newSessionId now rnd
   \<and> (\<forall>r\<in>set (sent (run evs init_world)).
        req_method r = ''POST'' \<and> req_url r = ''http://localhost:8000/chat'')"
proof -
  have "\<forall>r\<in>set (sent (run evs init_world)).
        req_method r = ''POST'' \<and> req_url r = ''http://localhost:8000/chat''"
    by (rule well_formed_run) (simp_all add: init_world_def chat_request_def)
  then show ?thesis by (simp add: clearChat_def)
qed

text \<open>An instance: the request sent before a clear is still the only one after it.\<close>

theorem clear_sends_no_request_witness:
  "chat_request ''msg-3'' ''session-1000-abcdefghi'' ''hi''
     \<in> set (sent (run [Mount 1000 ''0.abcdefghijklm'', Change ''hi'', Submit 1 2 3,
                       Settle (FetchRejected NonError) 7 8, Clear 9 ''0.zyxwvutsrqp''] init_world))
   \<and> req_method (chat_request ''msg-3'' ''session-1000-abcdefghi'' ''hi'') = ''POST''
   \<and> req_url (chat_request ''msg-3'' ''session-1000-abcdefghi'' ''hi'') = ''http://localhost:8000/chat''"
proof -
  let ?evs = "[Mount 1000 ''0.abcdefghijklm'', Change ''hi'', Submit 1 2 3,
               Settle (FetchRejected NonError) 7 8, Clear 9 ''0.zyxwvutsrqp'']"
  let ?r = "chat_request ''msg-3'' ''session-1000-abcdefghi'' ''hi''"
  have m: "?r \<in> set (sent (run ?evs init_world))"
    by (simp add: client_defs sample_session sample_id)
  from clear_sends_no_request [of 0 "[]" init_world ?evs]
  have "\<forall>r\<in>set (sent (run ?evs init_world)).
          req_method r = ''POST'' \<and> req_url r = ''http://localhost:8000/chat''"
    by blast
  from bspec [OF this m] show ?thesis using m by simp
qed

end
